theory Spec2Isabelle
  imports Main
begin

section \<open>Strings as the page uses them\<close>

text \<open>
  A string is a list of characters; a character is a code unit below 256.
  \<open>js_split c s\<close> is \<^verbatim>\<open>s.split(c)\<close> for a separator of one character: the pieces
  of \<open>s\<close> between the occurrences of \<open>c\<close>, in order. The array it returns is never
  empty (\<^verbatim>\<open>''.split('/')\<close> is \<^verbatim>\<open>['']\<close>), so \<^verbatim>\<open>.pop()\<close> on it is its last
  element and never \<^verbatim>\<open>undefined\<close>.
\<close>

fun js_split :: "char \<Rightarrow> string \<Rightarrow> string list" where
  "js_split c [] = [[]]"
| "js_split c (x # xs) =
     (if x = c then [] # js_split c xs
      else (case js_split c xs of [] \<Rightarrow> [[x]] | w # ws \<Rightarrow> (x # w) # ws))"

definition js_pop :: "string list \<Rightarrow> string" where
  "js_pop parts = last parts"

text \<open>
  \<^verbatim>\<open>String.prototype.trim\<close>: white space and line terminators are removed from both
  ends. Of the characters ECMAScript lists, those below 256 are TAB, LF, VT, FF, CR,
  SPACE and NO-BREAK SPACE.
\<close>

definition isWhiteSpace :: "char \<Rightarrow> bool" where
  "isWhiteSpace c \<longleftrightarrow>
     c \<in> set [CHR 0x09, CHR 0x0A, CHR 0x0B, CHR 0x0C, CHR 0x0D, CHR 0x20, CHR 0xA0]"

definition trim :: "string \<Rightarrow> string" where
  "trim s = rev (dropWhile isWhiteSpace (rev (dropWhile isWhiteSpace s)))"

section \<open>Data\<close>

text \<open>
  The \<^verbatim>\<open>Note\<close> interface of the note page. A row of the \<^verbatim>\<open>notes\<close> table, as
  \<^verbatim>\<open>select('*')\<close> returns it, is a value of the same type (the two timestamp columns
  are never read by the page and are left out).
\<close>

record Note =
  note_id :: string
  title :: string
  content :: string
  category :: string
  tags :: "string list"
  attachments :: "string list"
  user_id :: "string option"

text \<open>The object \<^verbatim>\<open>noteData\<close> that \<^verbatim>\<open>handleSave\<close> sends to the store.\<close>

record NoteData =
  nd_title :: string
  nd_content :: string
  nd_category :: string
  nd_tags :: "string list"
  nd_attachments :: "string list"
  nd_user_id :: string

text \<open>The part of the authenticated session the page reads: \<^verbatim>\<open>session.user.id\<close>.\<close>

record Session =
  session_user_id :: string

text \<open>A browser \<^verbatim>\<open>File\<close>: its name, its size in bytes and its MIME type.\<close>

record File =
  file_name :: string
  file_size :: nat
  file_type :: string

text \<open>
  The React state of the note page (\<^verbatim>\<open>note\<close>, \<^verbatim>\<open>loading\<close>, \<^verbatim>\<open>saving\<close>,
  \<^verbatim>\<open>showUpload\<close>, \<^verbatim>\<open>error\<close>). The state variable \<^verbatim>\<open>note\<close> is the field
  \<open>draft\<close> here, \<^verbatim>\<open>null\<close> being \<open>None\<close>.
\<close>

record NotePage =
  draft :: "Note option"
  loading :: bool
  saving :: bool
  showUpload :: bool
  error :: "string option"

text \<open>
  The React state of the upload component (\<^verbatim>\<open>error\<close>, \<^verbatim>\<open>uploading\<close>,
  \<^verbatim>\<open>uploadProgress\<close>); its \<^verbatim>\<open>error\<close> is the field \<open>upload_error\<close>.
\<close>

record FileUpload =
  upload_error :: "string option"
  uploading :: bool
  uploadProgress :: "string \<rightharpoonup> nat"

section \<open>The remote services and the browser\<close>

text \<open>
  Every request the client sends, with its arguments:
  \<^verbatim>\<open>from('notes').insert([noteData])\<close>, \<^verbatim>\<open>.update(noteData).eq('id', id)\<close>,
  \<^verbatim>\<open>.delete().eq('id', id)\<close>, \<^verbatim>\<open>.select('*').eq('id', id).single()\<close>, and on the
  bucket \<^verbatim>\<open>notes-attachments\<close>, \<^verbatim>\<open>upload(filePath, file, ...)\<close> and
  \<^verbatim>\<open>remove(names)\<close>.
\<close>

datatype request =
    NotesInsert NoteData
  | NotesUpdate NoteData string
  | NotesDelete string
  | NotesSelectSingle string
  | StorageUpload string File
  | StorageRemove "string list"

text \<open>
  What an awaited client call gives back: the promise resolves to an object with
  \<^verbatim>\<open>error\<close> null (\<open>Resolved\<close>, with the data), it resolves to an object with
  \<^verbatim>\<open>error\<close> set (\<open>ErrorResult\<close>), or it rejects, so that \<^verbatim>\<open>await\<close> throws
  (\<open>Rejected\<close>).
\<close>

datatype 'a reply = Resolved 'a | ErrorResult string | Rejected string

text \<open>
  Whether a request goes wrong is decided outside the page (network, service, access
  policy); it is an input of the model, one \<open>fault\<close> for each request. A request that
  goes wrong changes nothing in the table.
\<close>

datatype fault = NoFault | Refused string | Crashed string

text \<open>
  Everything outside the React state: the rows of the table \<^verbatim>\<open>notes\<close> by primary
  key, every request the client has been asked to send so far (the calls of its methods,
  oldest first), the lines written with
  \<^verbatim>\<open>console.error\<close> (message and error) and the targets of the calls of
  \<^verbatim>\<open>navigate\<close>.
\<close>

record world =
  notes_table :: "string \<rightharpoonup> Note"
  requests :: "request list"
  console :: "(string \<times> string) list"
  navigations :: "string list"

definition received :: "request \<Rightarrow> world \<Rightarrow> world" where
  "received rq w = w\<lparr>requests := requests w @ [rq]\<rparr>"

definition answer :: "fault \<Rightarrow> 'a reply \<times> world \<Rightarrow> world \<Rightarrow> 'a reply \<times> world" where
  "answer flt served w1 =
     (case flt of NoFault \<Rightarrow> served
      | Refused e \<Rightarrow> (ErrorResult e, w1)
      | Crashed e \<Rightarrow> (Rejected e, w1))"

text \<open>The error text a fault carries.\<close>

definition fault_error :: "fault \<Rightarrow> string" where
  "fault_error flt = (case flt of NoFault \<Rightarrow> [] | Refused e \<Rightarrow> e | Crashed e \<Rightarrow> e)"

definition row_of :: "string \<Rightarrow> NoteData \<Rightarrow> Note" where
  "row_of k d = \<lparr>note_id = k, title = nd_title d, content = nd_content d,
                 category = nd_category d, tags = nd_tags d,
                 attachments = nd_attachments d, user_id = Some (nd_user_id d)\<rparr>"

text \<open>
  \<^verbatim>\<open>INSERT\<close>: the row gets the primary key \<open>newid\<close> that the column default
  \<^verbatim>\<open>gen_random_uuid()\<close> draws; a key already in the table violates the primary key.
\<close>

definition notes_insert :: "fault \<Rightarrow> string \<Rightarrow> NoteData \<Rightarrow> world \<Rightarrow> unit reply \<times> world" where
  "notes_insert flt newid d w =
     (let w1 = received (NotesInsert d) w in
      answer flt
        (case notes_table w newid of
           Some r \<Rightarrow> (ErrorResult ''duplicate key'', w1)
         | None \<Rightarrow> (Resolved (), w1\<lparr>notes_table := (notes_table w)(newid \<mapsto> row_of newid d)\<rparr>))
        w1)"

text \<open>
  \<^verbatim>\<open>UPDATE ... WHERE id = k\<close>: the columns of the payload are replaced in the row
  with that key; with no such row nothing changes and no error is reported.
\<close>

definition notes_update :: "fault \<Rightarrow> NoteData \<Rightarrow> string \<Rightarrow> world \<Rightarrow> unit reply \<times> world" where
  "notes_update flt d k w =
     (let w1 = received (NotesUpdate d k) w in
      answer flt
        (case notes_table w k of
           None \<Rightarrow> (Resolved (), w1)
         | Some r \<Rightarrow> (Resolved (), w1\<lparr>notes_table := (notes_table w)(k \<mapsto> row_of k d)\<rparr>))
        w1)"


text \<open>
  \<^verbatim>\<open>SELECT * ... WHERE id = k\<close> with \<^verbatim>\<open>.single()\<close>: the row, or an error when no
  row has that key.
\<close>

definition notes_select_single :: "fault \<Rightarrow> string \<Rightarrow> world \<Rightarrow> Note reply \<times> world" where
  "notes_select_single flt k w =
     (let w1 = received (NotesSelectSingle k) w in
      answer flt
        (case notes_table w k of
           None \<Rightarrow> (ErrorResult ''no rows'', w1)
         | Some r \<Rightarrow> (Resolved r, w1))
        w1)"

text \<open>
  The storage requests; the objects of the bucket are not part of the model. An upload
  is in two parts, because the component has several uploads under way at once: the
  request is made when the job calls \<^verbatim>\<open>upload\<close>, and the reply comes in later.
\<close>

definition storage_upload_request :: "string \<Rightarrow> File \<Rightarrow> world \<Rightarrow> world" where
  "storage_upload_request filePath file w = received (StorageUpload filePath file) w"

definition storage_upload_reply :: "fault \<Rightarrow> unit reply" where
  "storage_upload_reply flt =
     (case flt of NoFault \<Rightarrow> Resolved ()
      | Refused e \<Rightarrow> ErrorResult e
      | Crashed e \<Rightarrow> Rejected e)"

definition storage_remove :: "fault \<Rightarrow> string list \<Rightarrow> world \<Rightarrow> unit reply \<times> world" where
  "storage_remove flt names w =
     (let w1 = received (StorageRemove names) w in answer flt (Resolved (), w1) w1)"

text \<open>
  \<^verbatim>\<open>encodeURI\<close>: the letters, the digits and the characters
  \<^verbatim>\<open>; , / ? : @ & = + $ - _ . ! ~ * ' ( ) #\<close> stay; every other character is replaced by
  the bytes of its UTF-8 encoding, each written as a percent sign and two upper-case
  hexadecimal digits.
\<close>

definition uriUnescaped :: "char \<Rightarrow> bool" where
  "uriUnescaped c \<longleftrightarrow>
     c \<in> set (''ABCDEFGHIJKLMNOPQRSTUVWXYZ'' @ ''abcdefghijklmnopqrstuvwxyz'' @ ''0123456789''
              @ '';,/?:@&=+$-_.!~*()#'' @ [CHR 0x27])"

definition hexDigit :: "nat \<Rightarrow> char" where
  "hexDigit n = ''0123456789ABCDEF'' ! n"

definition percent :: "nat \<Rightarrow> string" where
  "percent b = [CHR ''%'', hexDigit (b div 16), hexDigit (b mod 16)]"

definition encodeChar :: "char \<Rightarrow> string" where
  "encodeChar c =
     (if uriUnescaped c then [c]
      else (let n = (of_char c :: nat)
            in if n < 128 then percent n
               else percent (192 + n div 64) @ percent (128 + n mod 64)))"

definition encodeURI :: "string \<Rightarrow> string" where
  "encodeURI s = concat (map encodeChar s)"

text \<open>
  \<^verbatim>\<open>getPublicUrl(path)\<close> of the storage client on the bucket \<^verbatim>\<open>notes-attachments\<close>:
  the URL of the storage service, the public path of the bucket and the path of the
  object, passed through \<^verbatim>\<open>encodeURI\<close>. It asks the service nothing. \<open>storageUrl\<close> is
  the URL of the project's storage service.
\<close>

definition storage_getPublicUrl :: "string \<Rightarrow> string \<Rightarrow> string" where
  "storage_getPublicUrl storageUrl path =
     encodeURI (storageUrl @ ''/object/public/notes-attachments/'' @ path)"

definition console_error :: "string \<Rightarrow> string \<Rightarrow> world \<Rightarrow> world" where
  "console_error msg e w = w\<lparr>console := console w @ [(msg, e)]\<rparr>"

definition navigate :: "string \<Rightarrow> world \<Rightarrow> world" where
  "navigate target w = w\<lparr>navigations := navigations w @ [target]\<rparr>"

section \<open>The note page\<close>

text \<open>
  Each handler takes the state of the page and the world and returns both as they are
  once the handler has run to its end. \<open>route_id\<close> is the route parameter \<^verbatim>\<open>id\<close>,
  \<open>session\<close> the value of \<^verbatim>\<open>useAuth()\<close>.
\<close>

definition fetchNote :: "string \<Rightarrow> fault \<Rightarrow> NotePage \<times> world \<Rightarrow> NotePage \<times> world" where
  "fetchNote route_id flt sw =
     (case sw of (st, w) \<Rightarrow>
        (case notes_select_single flt route_id w of
           (Resolved d, w1) \<Rightarrow> (st\<lparr>draft := Some d, loading := False\<rparr>, w1)
         | (ErrorResult e, w1) \<Rightarrow>
             (st\<lparr>error := Some ''Failed to load note. Please try again.'', loading := False\<rparr>,
              console_error ''Error fetching note:'' e w1)
         | (Rejected e, w1) \<Rightarrow>
             (st\<lparr>error := Some ''Failed to load note. Please try again.'', loading := False\<rparr>,
              console_error ''Error fetching note:'' e w1)))"

text \<open>
  \<^verbatim>\<open>handleSave\<close>. \<open>newid\<close> is the key the store would give a row inserted now.
\<close>

definition handleSave ::
  "string \<Rightarrow> Session option \<Rightarrow> fault \<Rightarrow> string \<Rightarrow> NotePage \<times> world \<Rightarrow> NotePage \<times> world" where
  "handleSave route_id session flt newid sw =
     (case sw of (st, w) \<Rightarrow>
        (case draft st of None \<Rightarrow> (st, w)
         | Some n \<Rightarrow>
        (case session of None \<Rightarrow> (st, w)
         | Some s \<Rightarrow>
           (let st1 = st\<lparr>saving := True, error := None\<rparr>;
                noteData = \<lparr>nd_title = trim (title n), nd_content = content n,
                            nd_category = trim (category n), nd_tags = tags n,
                            nd_attachments = attachments n,
                            nd_user_id = session_user_id s\<rparr>;
                answered = (if route_id = ''new'' then notes_insert flt newid noteData w
                            else notes_update flt noteData route_id w)
            in (case answered of
                  (Resolved u, w1) \<Rightarrow> (st1\<lparr>saving := False\<rparr>, navigate ''/'' w1)
                | (ErrorResult e, w1) \<Rightarrow>
                    (st1\<lparr>error := Some ''Failed to save note. Please try again.'',
                         saving := False\<rparr>,
                     console_error ''Error saving note:'' e w1)
                | (Rejected e, w1) \<Rightarrow>
                    (st1\<lparr>error := Some ''Failed to save note. Please try again.'',
                         saving := False\<rparr>,
                     console_error ''Error saving note:'' e w1))))))"

text \<open>
  \<^verbatim>\<open>url.split('/').pop()\<close>, the object name that both \<^verbatim>\<open>handleDelete\<close> and the
  upload component's \<^verbatim>\<open>handleRemoveFile\<close> derive from a URL.
\<close>

definition objectName :: "string \<Rightarrow> string" where
  "objectName url = js_pop (js_split CHR ''/'' url)"


definition handleUploadComplete :: "string list \<Rightarrow> NotePage \<Rightarrow> NotePage" where
  "handleUploadComplete urls st =
     st\<lparr>draft := (case draft st of None \<Rightarrow> None
                  | Some prev \<Rightarrow> Some (prev\<lparr>attachments := attachments prev @ urls\<rparr>)),
        showUpload := False\<rparr>"

text \<open>The page's \<^verbatim>\<open>handleRemoveFile\<close>, passed to the upload component as \<^verbatim>\<open>onRemoveFile\<close>.\<close>

definition NotePage_handleRemoveFile :: "string \<Rightarrow> NotePage \<Rightarrow> NotePage" where
  "NotePage_handleRemoveFile urlToRemove st =
     st\<lparr>draft := (case draft st of None \<Rightarrow> None
                  | Some prev \<Rightarrow>
                      Some (prev\<lparr>attachments := filter (\<lambda>url. url \<noteq> urlToRemove) (attachments prev)\<rparr>))\<rparr>"

section \<open>The upload component\<close>

definition MAX_FILE_SIZE :: nat where
  "MAX_FILE_SIZE = 25 * 1024 * 1024"


text \<open>
  The storage name of an upload job: \<^verbatim>\<open>file.name.split('.').pop()\<close> and
  \<^verbatim>\<open>`${Math.random()}.${fileExt}`\<close>, where \<open>rnd\<close> is the decimal text of the
  random number drawn.
\<close>

definition fileExt :: "File \<Rightarrow> string" where
  "fileExt file = js_pop (js_split CHR ''.'' (file_name file))"

definition fileName :: "string \<Rightarrow> File \<Rightarrow> string" where
  "fileName rnd file = rnd @ ''.'' @ fileExt file"

text \<open>
  An upload job is the async function mapped over \<^verbatim>\<open>validFiles\<close>, applied to one
  file. It runs in two steps. The first, up to its \<^verbatim>\<open>await\<close>, draws the random
  number, fixes \<^verbatim>\<open>filePath\<close> and sends the upload request; \<^verbatim>\<open>map\<close> takes this step
  for every file of the batch, in order, before anything else happens. What a job keeps
  for its second step is its file and its path.
\<close>

record UploadJob =
  job_file :: File
  filePath :: string

fun startJobs :: "(nat \<Rightarrow> string) \<Rightarrow> nat \<Rightarrow> File list \<Rightarrow> world \<Rightarrow> UploadJob list \<times> world" where
  "startJobs rnd k [] w = ([], w)"
| "startJobs rnd k (file # files) w =
     (let job = \<lparr>job_file = file, filePath = fileName (rnd k) file\<rparr>
      in (case startJobs rnd (Suc k) files (storage_upload_request (filePath job) file w) of
            (jobs, w1) \<Rightarrow> (job # jobs, w1)))"

text \<open>
  The second step of a job runs when the reply to its request has come in. It returns
  the value the job's promise resolves to: the public URL, or \<^verbatim>\<open>null\<close> (\<open>None\<close>) after
  a failure, which it reports with \<^verbatim>\<open>console.error\<close> and \<^verbatim>\<open>setError\<close>.
  \<open>getPublicUrl\<close> is the storage client's function from a path of the bucket to its
  public URL.
\<close>

definition jobSettled ::
  "fault \<Rightarrow> (string \<Rightarrow> string) \<Rightarrow> UploadJob \<Rightarrow> FileUpload \<times> world
     \<Rightarrow> string option \<times> FileUpload \<times> world" where
  "jobSettled flt getPublicUrl job sw =
     (case sw of (fu, w) \<Rightarrow>
        (let file = job_file job;
             caught = (\<lambda>e. (None,
                         fu\<lparr>upload_error := Some (''Failed to upload '' @ file_name file)\<rparr>,
                         console_error (''Error uploading '' @ file_name file @ '':'') e w))
         in (case storage_upload_reply flt of
               Resolved u \<Rightarrow>
                 (Some (getPublicUrl (filePath job)),
                  fu\<lparr>uploadProgress := (uploadProgress fu)(file_name file \<mapsto> 100)\<rparr>, w)
             | ErrorResult e \<Rightarrow> caught e
             | Rejected e \<Rightarrow> caught e)))"

text \<open>
  The replies come in one at a time, in an order the component does not choose:
  \<open>arrival\<close> lists the numbers of the jobs in the order of their replies. The state
  while the jobs are under way is the list of the jobs still waiting, the array
  \<^verbatim>\<open>urls\<close> that \<^verbatim>\<open>Promise.all\<close> fills (one place for each job, in the order of the
  batch), the state of the component and the world. A reply for job \<open>k\<close> runs the second
  step of job \<open>k\<close> with its fault \<open>flt k\<close>; an entry of \<open>arrival\<close> that names no
  waiting job is passed over.
\<close>

fun settleJobs ::
  "(nat \<Rightarrow> fault) \<Rightarrow> (string \<Rightarrow> string) \<Rightarrow> UploadJob list \<Rightarrow> nat list
     \<Rightarrow> nat list \<times> string option list \<times> FileUpload \<times> world
     \<Rightarrow> nat list \<times> string option list \<times> FileUpload \<times> world" where
  "settleJobs flt getPublicUrl jobs [] st = st"
| "settleJobs flt getPublicUrl jobs (k # arrival) st =
     (case st of (waiting, urls, fu, w) \<Rightarrow>
        if k \<in> set waiting
        then (case jobSettled (flt k) getPublicUrl (jobs ! k) (fu, w) of
                (url, fu1, w1) \<Rightarrow>
                  settleJobs flt getPublicUrl jobs arrival
                    (removeAll k waiting, urls[k := url], fu1, w1))
        else settleJobs flt getPublicUrl jobs arrival st)"

text \<open>The size filter of \<^verbatim>\<open>onDrop\<close>, with the message it sets for each file it drops.\<close>

definition exceeds_message :: "File \<Rightarrow> string" where
  "exceeds_message file = ''File '' @ [CHR 0x22] @ file_name file @ [CHR 0x22] @ '' exceeds 25MB limit''"

definition validFiles :: "File list \<Rightarrow> File list" where
  "validFiles acceptedFiles = filter (\<lambda>file. \<not> file_size file > MAX_FILE_SIZE) acceptedFiles"

definition size_errors :: "File list \<Rightarrow> FileUpload \<Rightarrow> FileUpload" where
  "size_errors acceptedFiles fu =
     foldl (\<lambda>s file. if file_size file > MAX_FILE_SIZE
                      then s\<lparr>upload_error := Some (exceeds_message file)\<rparr> else s)
           fu acceptedFiles"

text \<open>
  \<^verbatim>\<open>onDrop\<close>. The state is that of the component, that of its parent (changed only
  through the callback \<^verbatim>\<open>onUploadComplete\<close>) and the world. \<^verbatim>\<open>await Promise.all\<close>
  resumes once no job is waiting; what follows it (the filter of the URLs, the
  callback, and \<^verbatim>\<open>setUploading(false)\<close> in the \<^verbatim>\<open>finally\<close> block) runs then. If the
  replies listed in \<open>arrival\<close> leave a job waiting, the state returned is the one in
  which \<^verbatim>\<open>onDrop\<close> is still suspended at the \<^verbatim>\<open>await\<close>.
\<close>

definition onDrop ::
  "(string list \<Rightarrow> 'p \<Rightarrow> 'p) \<Rightarrow> (nat \<Rightarrow> string) \<Rightarrow> (nat \<Rightarrow> fault) \<Rightarrow> (string \<Rightarrow> string)
     \<Rightarrow> nat list \<Rightarrow> File list \<Rightarrow> FileUpload \<times> 'p \<times> world \<Rightarrow> FileUpload \<times> 'p \<times> world" where
  "onDrop onUploadComplete rnd flt getPublicUrl arrival acceptedFiles spw =
     (case spw of (fu, parent, w) \<Rightarrow>
        (let fu0 = fu\<lparr>upload_error := None, uploading := True, uploadProgress := Map.empty\<rparr>;
             fu1 = size_errors acceptedFiles fu0;
             valid = validFiles acceptedFiles
         in if length valid = 0 then (fu1\<lparr>uploading := False\<rparr>, parent, w)
            else
              (case startJobs rnd 0 valid w of
                 (jobs, w1) \<Rightarrow>
                   (case settleJobs flt getPublicUrl jobs arrival
                           ([0..<length jobs], replicate (length jobs) None, fu1, w1) of
                      (waiting, urls, fu2, w2) \<Rightarrow>
                        if waiting \<noteq> [] then (fu2, parent, w2)
                        else
                          (let validUrls = map the (filter (\<lambda>url. url \<noteq> None) urls)
                           in (fu2\<lparr>uploading := False\<rparr>,
                               (if length validUrls > 0 then onUploadComplete validUrls parent
                                else parent),
                               w2))))))"

text \<open>
  The component's \<^verbatim>\<open>handleRemoveFile\<close>. \<open>onRemoveFile\<close> is the optional prop; the
  reply of \<^verbatim>\<open>remove\<close> is awaited and not looked at, so only a rejected promise
  reaches the \<^verbatim>\<open>catch\<close> block.
\<close>

definition FileUpload_handleRemoveFile ::
  "(string \<Rightarrow> 'p \<Rightarrow> 'p) option \<Rightarrow> fault \<Rightarrow> string \<Rightarrow> FileUpload \<times> 'p \<times> world
     \<Rightarrow> FileUpload \<times> 'p \<times> world" where
  "FileUpload_handleRemoveFile onRemoveFile flt url spw =
     (case spw of (fu, parent, w) \<Rightarrow>
        (case onRemoveFile of None \<Rightarrow> (fu, parent, w)
         | Some callback \<Rightarrow>
            (let name = objectName url;
                 removed = (if name \<noteq> [] then storage_remove flt [name] w else (Resolved (), w))
             in (case removed of
                   (Rejected e, w1) \<Rightarrow>
                     (fu\<lparr>upload_error := Some ''Failed to remove file. Please try again.''\<rparr>,
                      parent, console_error ''Error removing file:'' e w1)
                 | (ErrorResult e, w1) \<Rightarrow> (fu, callback url parent, w1)
                 | (Resolved u, w1) \<Rightarrow> (fu, callback url parent, w1)))))"

section \<open>Sample data\<close>

text \<open>
  The public URLs of a project, five files (two PDFs, a video above the size limit, a
  text file, a video whose name has a space and no dot), a signed-in user, an empty
  world, a fresh upload component, and a note with one attachment and a title that
  starts with a space: the concrete values at which the theorems below are applied.
\<close>

definition sample_getPublicUrl :: "string \<Rightarrow> string" where
  "sample_getPublicUrl path = storage_getPublicUrl ''https://proj.supabase.co/storage/v1'' path"

definition exam_pdf :: File where
  "exam_pdf = \<lparr>file_name = ''exam.pdf'', file_size = 2097152, file_type = ''application/pdf''\<rparr>"

definition lecture_mp4 :: File where
  "lecture_mp4 = \<lparr>file_name = ''lecture.mp4'', file_size = 30000000, file_type = ''video/mp4''\<rparr>"

definition todo_txt :: File where
  "todo_txt = \<lparr>file_name = ''todo.txt'', file_size = 120, file_type = ''text/plain''\<rparr>"

definition slides_pdf :: File where
  "slides_pdf = \<lparr>file_name = ''slides.v2.pdf'', file_size = 500000, file_type = ''application/pdf''\<rparr>"

definition lecture_notes :: File where
  "lecture_notes = \<lparr>file_name = ''lecture notes'', file_size = 4000000, file_type = ''video/mp4''\<rparr>"

definition alice :: Session where
  "alice = \<lparr>session_user_id = ''u-alice''\<rparr>"

definition world0 :: world where
  "world0 = \<lparr>notes_table = Map.empty, requests = [], console = [], navigations = []\<rparr>"

definition upload0 :: FileUpload where
  "upload0 = \<lparr>upload_error = None, uploading = False, uploadProgress = Map.empty\<rparr>"

definition sample_note :: Note where
  "sample_note = \<lparr>note_id = ''new'', title = '' Midterm Review'', content = ''# Cells'',
                   category = ''Biology'', tags = [''exam''],
                   attachments = [sample_getPublicUrl ''0.5.pdf''], user_id = None\<rparr>"

definition page_with :: "Note option \<Rightarrow> NotePage" where
  "page_with d = \<lparr>draft = d, loading = False, saving = False, showUpload = True, error = None\<rparr>"

text \<open>Job 0 draws 0.5 and succeeds; every later job draws 0.25 and is refused.\<close>

definition sample_rnd :: "nat \<Rightarrow> string" where
  "sample_rnd k = (if k = 0 then ''0.5'' else ''0.25'')"

definition sample_flt :: "nat \<Rightarrow> fault" where
  "sample_flt k = (if k = 0 then NoFault else Refused ''denied'')"

section \<open>Splitting and trimming\<close>

lemma js_split_not_Nil: "js_split c s \<noteq> []"
  by (induction s) (auto split: list.splits)

lemma js_split_no_sep: "c \<notin> set s \<Longrightarrow> js_split c s = [s]"
  by (induction s) auto

lemma js_split_append: "js_split c (p @ c # s) = js_split c p @ js_split c s"
proof (induction p)
  case Nil
  show ?case by simp
next
  case (Cons x p)
  obtain w ws where "js_split c p = w # ws"
    using js_split_not_Nil by (cases "js_split c p") auto
  with Cons show ?case by simp
qed

lemma js_pop_split_append: "js_pop (js_split c (p @ c # s)) = js_pop (js_split c s)"
  by (simp add: js_pop_def js_split_append js_split_not_Nil)

lemma js_pop_split_free: "c \<notin> set (js_pop (js_split c s))"
proof (induction s)
  case Nil
  show ?case by (simp add: js_pop_def)
next
  case (Cons x s)
  obtain w ws where ws: "js_split c s = w # ws"
    using js_split_not_Nil by (cases "js_split c s") auto
  with Cons show ?case by (cases ws) (auto simp: js_pop_def)
qed

text \<open>What \<open>trim\<close> removes is white space at the two ends, and nothing else.\<close>

lemma trim_decomp:
  "\<exists>pre suf. s = pre @ trim s @ suf \<and> (\<forall>c\<in>set pre. isWhiteSpace c) \<and> (\<forall>c\<in>set suf. isWhiteSpace c)"
proof -
  let ?a = "dropWhile isWhiteSpace s"
  have 1: "s = takeWhile isWhiteSpace s @ ?a" by simp
  have 2: "rev ?a = takeWhile isWhiteSpace (rev ?a) @ dropWhile isWhiteSpace (rev ?a)" by simp
  have "?a = rev (rev ?a)" by simp
  also have "\<dots> = rev (dropWhile isWhiteSpace (rev ?a)) @ rev (takeWhile isWhiteSpace (rev ?a))"
    by (subst 2) (simp only: rev_append)
  finally have 3: "?a = trim s @ rev (takeWhile isWhiteSpace (rev ?a))" by (simp add: trim_def)
  have "s = takeWhile isWhiteSpace s @ trim s @ rev (takeWhile isWhiteSpace (rev ?a))"
    using 1 3 by metis
  moreover have "\<forall>c\<in>set (takeWhile isWhiteSpace s). isWhiteSpace c"
    by (auto dest: set_takeWhileD)
  moreover have "\<forall>c\<in>set (rev (takeWhile isWhiteSpace (rev ?a))). isWhiteSpace c"
    by (auto dest: set_takeWhileD)
  ultimately show ?thesis by blast
qed

lemma set_js_pop_split: "set (js_pop (js_split c s)) \<subseteq> set s"
proof (induction s)
  case Nil
  show ?case by (simp add: js_pop_def)
next
  case (Cons x s)
  obtain w ws where ws: "js_split c s = w # ws"
    using js_split_not_Nil by (cases "js_split c s") auto
  with Cons show ?case by (cases ws) (auto simp: js_pop_def)
qed

section \<open>The jobs of a batch\<close>

lemma enumerate_index: "enumerate 0 xs = map (\<lambda>k. (k, xs ! k)) [0..<length xs]"
  by (rule nth_equalityI) (simp_all add: nth_enumerate_eq)

lemma validUrls_eq:
  "map the (filter (\<lambda>url. url \<noteq> None) (map (\<lambda>x. if P x then Some (h x) else None) xs)) =
     map h (filter P xs)"
  by (induction xs) auto

lemma startJobs_Cons:
  "startJobs rnd k (file # files) w =
     (\<lparr>job_file = file, filePath = fileName (rnd k) file\<rparr>
        # fst (startJobs rnd (Suc k) files (storage_upload_request (fileName (rnd k) file) file w)),
      snd (startJobs rnd (Suc k) files (storage_upload_request (fileName (rnd k) file) file w)))"
  by (simp add: Let_def split: prod.splits)

lemma startJobs_jobs:
  "fst (startJobs rnd k files w) =
     map (\<lambda>(i, f). \<lparr>job_file = f, filePath = fileName (rnd i) f\<rparr>) (enumerate k files)"
proof (induction files arbitrary: k w)
  case Nil
  show ?case by simp
next
  case (Cons f files)
  show ?case unfolding startJobs_Cons by (simp add: Cons)
qed

lemma startJobs_world:
  "snd (startJobs rnd k files w) =
     w\<lparr>requests := requests w @ map (\<lambda>(i, f). StorageUpload (fileName (rnd i) f) f) (enumerate k files)\<rparr>"
proof (induction files arbitrary: k w)
  case Nil
  show ?case by simp
next
  case (Cons f files)
  show ?case unfolding startJobs_Cons
    by (simp add: Cons storage_upload_request_def received_def)
qed

lemma jobSettled_eq:
  "jobSettled flt gpu job (fu, w) =
     (if flt = NoFault
      then (Some (gpu (filePath job)),
            fu\<lparr>uploadProgress := (uploadProgress fu)(file_name (job_file job) \<mapsto> 100)\<rparr>, w)
      else (None, fu\<lparr>upload_error := Some (''Failed to upload '' @ file_name (job_file job))\<rparr>,
            console_error (''Error uploading '' @ file_name (job_file job) @ '':'') (fault_error flt) w))"
  by (cases flt) (simp_all add: jobSettled_def storage_upload_reply_def fault_error_def Let_def)

lemma settleJobs_in:
  "k \<in> set waiting \<Longrightarrow>
   settleJobs flt gpu jobs (k # arrival) (waiting, urls, fu, w) =
     settleJobs flt gpu jobs arrival
       (removeAll k waiting, urls[k := fst (jobSettled (flt k) gpu (jobs ! k) (fu, w))],
        fst (snd (jobSettled (flt k) gpu (jobs ! k) (fu, w))),
        snd (snd (jobSettled (flt k) gpu (jobs ! k) (fu, w))))"
  by (simp split: prod.splits)

lemma settleJobs_out:
  "k \<notin> set waiting \<Longrightarrow>
   settleJobs flt gpu jobs (k # arrival) (waiting, urls, fu, w) =
     settleJobs flt gpu jobs arrival (waiting, urls, fu, w)"
  by simp

lemma settleJobs_waiting:
  "fst (settleJobs flt gpu jobs arrival (waiting, urls, fu, w)) =
     filter (\<lambda>k. k \<notin> set arrival) waiting"
proof (induction arrival arbitrary: waiting urls fu w)
  case Nil
  show ?case by simp
next
  case (Cons k arrival)
  show ?case
  proof (cases "k \<in> set waiting")
    case True
    have "filter (\<lambda>j. j \<notin> set arrival) (removeAll k waiting) =
          filter (\<lambda>j. j \<notin> set (k # arrival)) waiting"
      by (induction waiting) auto
    then show ?thesis unfolding settleJobs_in[OF True] Cons by simp
  next
    case False
    have "filter (\<lambda>j. j \<notin> set arrival) waiting = filter (\<lambda>j. j \<notin> set (k # arrival)) waiting"
      using False by (intro filter_cong) auto
    then show ?thesis unfolding settleJobs_out[OF False] Cons by simp
  qed
qed

lemma settleJobs_frame:
  "requests (snd (snd (snd (settleJobs flt gpu jobs arrival (waiting, urls, fu, w))))) = requests w
   \<and> notes_table (snd (snd (snd (settleJobs flt gpu jobs arrival (waiting, urls, fu, w))))) = notes_table w
   \<and> navigations (snd (snd (snd (settleJobs flt gpu jobs arrival (waiting, urls, fu, w))))) = navigations w
   \<and> uploading (fst (snd (snd (settleJobs flt gpu jobs arrival (waiting, urls, fu, w))))) = uploading fu
   \<and> length (fst (snd (settleJobs flt gpu jobs arrival (waiting, urls, fu, w)))) = length urls"
proof (induction arrival arbitrary: waiting urls fu w)
  case Nil
  show ?case by simp
next
  case (Cons k arrival)
  show ?case
  proof (cases "k \<in> set waiting")
    case True
    show ?thesis unfolding settleJobs_in[OF True]
      by (simp add: Cons jobSettled_eq console_error_def)
  next
    case False
    show ?thesis unfolding settleJobs_out[OF False] by (rule Cons)
  qed
qed

lemma settleJobs_urls:
  "j < length urls \<Longrightarrow>
   fst (snd (settleJobs flt gpu jobs arrival (waiting, urls, fu, w))) ! j =
     (if j \<in> set waiting \<and> j \<in> set arrival
      then (if flt j = NoFault then Some (gpu (filePath (jobs ! j))) else None)
      else urls ! j)"
proof (induction arrival arbitrary: waiting urls fu w)
  case Nil
  show ?case by simp
next
  case (Cons k arrival)
  show ?case
  proof (cases "k \<in> set waiting")
    case True
    have l: "j < length (urls[k := u])" for u using Cons.prems by simp
    show ?thesis unfolding settleJobs_in[OF True]
      using True Cons.prems
      by (simp add: Cons.IH[OF l] jobSettled_eq nth_list_update) (metis nth_list_update_neq)+
  next
    case False
    show ?thesis unfolding settleJobs_out[OF False]
      using False by (auto simp: Cons.IH[OF Cons.prems])
  qed
qed

lemma settleJobs_console:
  "distinct waiting \<Longrightarrow>
   \<exists>order. distinct order
     \<and> set order = {k \<in> set waiting. k \<in> set arrival \<and> flt k \<noteq> NoFault}
     \<and> console (snd (snd (snd (settleJobs flt gpu jobs arrival (waiting, urls, fu, w))))) =
         console w @ map (\<lambda>k. (''Error uploading '' @ file_name (job_file (jobs ! k)) @ '':'',
                               fault_error (flt k))) order"
proof (induction arrival arbitrary: waiting urls fu w)
  case Nil
  show ?case by (intro exI[of _ "[]"]) simp
next
  case (Cons k arrival)
  let ?entry = "\<lambda>k. (''Error uploading '' @ file_name (job_file (jobs ! k)) @ '':'', fault_error (flt k))"
  show ?case
  proof (cases "k \<in> set waiting")
    case True
    let ?s = "jobSettled (flt k) gpu (jobs ! k) (fu, w)"
    have d: "distinct (removeAll k waiting)" using Cons.prems by (simp add: distinct_removeAll)
    obtain order where o: "distinct order"
      "set order = {j \<in> set (removeAll k waiting). j \<in> set arrival \<and> flt j \<noteq> NoFault}"
      "console (snd (snd (snd (settleJobs flt gpu jobs arrival
          (removeAll k waiting, urls[k := fst ?s], fst (snd ?s), snd (snd ?s)))))) =
         console (snd (snd ?s)) @ map ?entry order"
      using Cons.IH[OF d, of "urls[k := fst ?s]" "fst (snd ?s)" "snd (snd ?s)"] by blast
    show ?thesis
    proof (cases "flt k = NoFault")
      case ok: True
      have "set order = {j \<in> set waiting. j \<in> set (k # arrival) \<and> flt j \<noteq> NoFault}"
        using o(2) ok by auto
      moreover have "console (snd (snd ?s)) = console w"
        using ok by (simp add: jobSettled_eq)
      ultimately show ?thesis
        unfolding settleJobs_in[OF True] using o(1,3) by (intro exI[of _ order]) simp
    next
      case bad: False
      have k: "k \<notin> set order" using o(2) by simp
      have "set (k # order) = {j \<in> set waiting. j \<in> set (k # arrival) \<and> flt j \<noteq> NoFault}"
        using o(2) bad True by auto
      moreover have "console (snd (snd ?s)) = console w @ [?entry k]"
        using bad by (simp add: jobSettled_eq console_error_def)
      ultimately show ?thesis
        unfolding settleJobs_in[OF True] using o(1,3) k by (intro exI[of _ "k # order"]) simp
    qed
  next
    case False
    obtain order where o: "distinct order"
      "set order = {j \<in> set waiting. j \<in> set arrival \<and> flt j \<noteq> NoFault}"
      "console (snd (snd (snd (settleJobs flt gpu jobs arrival (waiting, urls, fu, w))))) =
         console w @ map ?entry order"
      using Cons.IH[OF Cons.prems, of urls fu w] by blast
    have "set order = {j \<in> set waiting. j \<in> set (k # arrival) \<and> flt j \<noteq> NoFault}"
      using o(2) False by auto
    then show ?thesis
      unfolding settleJobs_out[OF False] using o(1,3) by (intro exI[of _ order]) simp
  qed
qed


lemma startJobs_index:
  "fst (startJobs rnd 0 valid w) =
     map (\<lambda>k. \<lparr>job_file = valid ! k, filePath = fileName (rnd k) (valid ! k)\<rparr>) [0..<length valid]"
  "snd (startJobs rnd 0 valid w) =
     w\<lparr>requests := requests w @
          map (\<lambda>k. StorageUpload (fileName (rnd k) (valid ! k)) (valid ! k)) [0..<length valid]\<rparr>"
  by (simp_all add: startJobs_jobs startJobs_world enumerate_index o_def del: upt.simps)

text \<open>
  \<^verbatim>\<open>onDrop\<close> in terms of the state in which the replies of \<open>arrival\<close> have left the
  jobs.
\<close>

lemma onDrop_eq:
  "onDrop cb rnd flt gpu arrival acceptedFiles (fu, parent, w) =
     (let valid = validFiles acceptedFiles;
          fu1 = size_errors acceptedFiles
                  (fu\<lparr>upload_error := None, uploading := True, uploadProgress := Map.empty\<rparr>);
          settled = settleJobs flt gpu (fst (startJobs rnd 0 valid w)) arrival
                      ([0..<length valid], replicate (length valid) None, fu1,
                       snd (startJobs rnd 0 valid w));
          urls = map (\<lambda>k. gpu (fileName (rnd k) (valid ! k)))
                     (filter (\<lambda>k. flt k = NoFault) [0..<length valid])
      in if valid = [] then (fu1\<lparr>uploading := False\<rparr>, parent, w)
         else if \<exists>k<length valid. k \<notin> set arrival
         then (fst (snd (snd settled)), parent, snd (snd (snd settled)))
         else ((fst (snd (snd settled)))\<lparr>uploading := False\<rparr>,
               (if urls = [] then parent else cb urls parent),
               snd (snd (snd settled))))"
proof (cases "validFiles acceptedFiles = []")
  case True
  then show ?thesis by (simp add: onDrop_def Let_def)
next
  case False
  let ?valid = "validFiles acceptedFiles"
  let ?N = "length ?valid"
  let ?fu1 = "size_errors acceptedFiles
                  (fu\<lparr>upload_error := None, uploading := True, uploadProgress := Map.empty\<rparr>)"
  let ?jobs = "fst (startJobs rnd 0 ?valid w)"
  let ?w1 = "snd (startJobs rnd 0 ?valid w)"
  let ?settled = "settleJobs flt gpu ?jobs arrival ([0..<?N], replicate ?N None, ?fu1, ?w1)"
  have len: "length ?jobs = ?N" by (simp add: startJobs_index del: upt.simps)
  have job: "filePath (?jobs ! k) = fileName (rnd k) (?valid ! k)" if "k < ?N" for k
    using that by (simp add: startJobs_index del: upt.simps)
  obtain waiting urls fu2 w2 where s: "?settled = (waiting, urls, fu2, w2)"
    by (cases ?settled) auto
  have wt: "waiting = filter (\<lambda>k. k \<notin> set arrival) [0..<?N]"
    using settleJobs_waiting[of flt gpu ?jobs arrival "[0..<?N]" "replicate ?N None" ?fu1 ?w1] s
    by simp
  have we: "(waiting \<noteq> []) = (\<exists>k<?N. k \<notin> set arrival)"
    unfolding wt by (auto simp: filter_empty_conv)
  have lu: "length urls = ?N"
    using settleJobs_frame[of flt gpu ?jobs arrival "[0..<?N]" "replicate ?N None" ?fu1 ?w1] s
    by simp
  have u: "urls = map (\<lambda>k. if flt k = NoFault then Some (gpu (fileName (rnd k) (?valid ! k))) else None)
                      [0..<?N]"
    if all: "\<not> (\<exists>k<?N. k \<notin> set arrival)"
  proof (rule nth_equalityI)
    show "length urls = length (map (\<lambda>k. if flt k = NoFault
            then Some (gpu (fileName (rnd k) (?valid ! k))) else None) [0..<?N])"
      using lu by simp
  next
    fix j assume "j < length urls"
    then have j: "j < ?N" using lu by simp
    then have "j < length (replicate ?N (None :: string option))" by simp
    from settleJobs_urls[OF this, of flt gpu ?jobs arrival "[0..<?N]" ?fu1 ?w1]
    have "urls ! j = (if flt j = NoFault then Some (gpu (filePath (?jobs ! j))) else None)"
      using s j all by simp
    then show "urls ! j = map (\<lambda>k. if flt k = NoFault
            then Some (gpu (fileName (rnd k) (?valid ! k))) else None) [0..<?N] ! j"
      using j by (simp add: job del: upt.simps)
  qed
  have v: "map the (filter (\<lambda>url. url \<noteq> None) urls) =
           map (\<lambda>k. gpu (fileName (rnd k) (?valid ! k))) (filter (\<lambda>k. flt k = NoFault) [0..<?N])"
    if all: "\<not> (\<exists>k<?N. k \<notin> set arrival)"
    unfolding u[OF all] by (simp only: validUrls_eq)
  obtain j0 w0 where st: "startJobs rnd 0 ?valid w = (j0, w0)"
    by (cases "startJobs rnd 0 ?valid w") auto
  have s': "settleJobs flt gpu j0 arrival ([0..<length j0], replicate (length j0) None, ?fu1, w0) =
            (waiting, urls, fu2, w2)"
    using s len st by simp
  have r: "onDrop cb rnd flt gpu arrival acceptedFiles (fu, parent, w) =
      (if waiting \<noteq> [] then (fu2, parent, w2)
       else (fu2\<lparr>uploading := False\<rparr>,
             (if map the (filter (\<lambda>url. url \<noteq> None) urls) = [] then parent
              else cb (map the (filter (\<lambda>url. url \<noteq> None) urls)) parent), w2))"
    using False
    by (simp add: onDrop_def Let_def st s' del: upt.simps not_None_eq)
  show ?thesis
  proof (cases "\<exists>k<?N. k \<notin> set arrival")
    case True
    then show ?thesis using False r we s by (simp add: Let_def del: upt.simps)
  next
    case all: False
    show ?thesis using False r we s all v[OF all] by (auto simp: Let_def simp del: upt.simps not_None_eq)
  qed
qed


section \<open>Public URLs\<close>

lemma encodeURI_append: "encodeURI (a @ b) = encodeURI a @ encodeURI b"
  by (simp add: encodeURI_def)

lemma hexDigit_no_slash: "k < 16 \<Longrightarrow> hexDigit k \<noteq> CHR ''/''"
proof -
  assume "k < 16"
  then have "hexDigit k \<in> set ''0123456789ABCDEF''"
    unfolding hexDigit_def by (intro nth_mem) simp
  then show ?thesis by auto
qed

lemma percent_no_slash: "b < 256 \<Longrightarrow> CHR ''/'' \<notin> set (percent b)"
proof -
  assume "b < 256"
  then have "b div 16 < 16" "b mod 16 < 16" by arith+
  then have "hexDigit (b div 16) \<noteq> CHR ''/''" "hexDigit (b mod 16) \<noteq> CHR ''/''"
    by (simp_all add: hexDigit_no_slash)
  then show ?thesis by (auto simp: percent_def)
qed

lemma encodeChar_no_slash: "c \<noteq> CHR ''/'' \<Longrightarrow> CHR ''/'' \<notin> set (encodeChar c)"
proof -
  assume c: "c \<noteq> CHR ''/''"
  have n: "(of_char c :: nat) < 256" by simp
  then have "192 + (of_char c :: nat) div 64 < 256" "128 + (of_char c :: nat) mod 64 < 256"
    by arith+
  then show ?thesis
    using c n percent_no_slash by (auto simp: encodeChar_def Let_def)
qed

lemma encodeURI_no_slash: "CHR ''/'' \<notin> set s \<Longrightarrow> CHR ''/'' \<notin> set (encodeURI s)"
proof (induction s)
  case Nil
  show ?case by (simp add: encodeURI_def)
next
  case (Cons a s)
  then have "a \<noteq> CHR ''/''" "CHR ''/'' \<notin> set (encodeURI s)" by auto
  then show ?case using encodeChar_no_slash[of a] by (simp add: encodeURI_def)
qed

lemma encodeURI_unescaped: "\<forall>c\<in>set s. uriUnescaped c \<Longrightarrow> encodeURI s = s"
  by (induction s) (auto simp: encodeURI_def encodeChar_def)

text \<open>The object name derived from a public URL is the path of the object, encoded.\<close>

lemma objectName_publicUrl:
  "CHR ''/'' \<notin> set path \<Longrightarrow> objectName (storage_getPublicUrl storageUrl path) = encodeURI path"
proof -
  assume p: "CHR ''/'' \<notin> set path"
  have "storage_getPublicUrl storageUrl path =
        encodeURI (storageUrl @ ''/object/public/notes-attachments'') @ CHR ''/'' # encodeURI path"
    by (simp add: storage_getPublicUrl_def encodeURI_def encodeChar_def uriUnescaped_def)
  then show ?thesis
    unfolding objectName_def
    using js_pop_split_append[of "CHR ''/''" "encodeURI (storageUrl @ ''/object/public/notes-attachments'')"
        "encodeURI path"]
      js_split_no_sep[OF encodeURI_no_slash[OF p]]
    by (simp add: js_pop_def)
qed

text \<open>
  Where every character of the storage name is one that \<^verbatim>\<open>encodeURI\<close> leaves alone, and
  none is a slash, the name derived from the public URL is the storage name.
\<close>

lemma objectName_roundtrip:
  "\<forall>c\<in>set (fileName rnd file). uriUnescaped c \<and> c \<noteq> CHR ''/'' \<Longrightarrow>
   objectName (storage_getPublicUrl storageUrl (fileName rnd file)) = fileName rnd file"
proof -
  assume a: "\<forall>c\<in>set (fileName rnd file). uriUnescaped c \<and> c \<noteq> CHR ''/''"
  then have "CHR ''/'' \<notin> set (fileName rnd file)" by auto
  then have "objectName (storage_getPublicUrl storageUrl (fileName rnd file)) =
             encodeURI (fileName rnd file)"
    by (rule objectName_publicUrl)
  also have "\<dots> = fileName rnd file" using a by (intro encodeURI_unescaped) auto
  finally show ?thesis .
qed

text \<open>The storage name keeps the text after the last dot of the file's name.\<close>

lemma fileName_keeps_extension:
  "js_pop (js_split CHR ''.'' (fileName rnd file)) = js_pop (js_split CHR ''.'' (file_name file))"
proof -
  have d: "CHR ''.'' \<notin> set (fileExt file)"
    unfolding fileExt_def by (rule js_pop_split_free)
  show ?thesis
    using js_pop_split_append[of "CHR ''.''" rnd "fileExt file"] js_split_no_sep[OF d]
    by (simp add: fileName_def js_pop_def fileExt_def)
qed

section \<open>What a drop does\<close>

lemma onDrop_requests:
  "requests (snd (snd (onDrop cb rnd flt gpu arrival acceptedFiles (fu, parent, w)))) =
     requests w @ map (\<lambda>k. StorageUpload (fileName (rnd k) (validFiles acceptedFiles ! k))
                                          (validFiles acceptedFiles ! k))
                    [0..<length (validFiles acceptedFiles)]"
  by (simp add: onDrop_eq Let_def settleJobs_frame startJobs_index del: upt.simps)

lemma onDrop_uploading:
  "uploading (fst (onDrop cb rnd flt gpu arrival acceptedFiles (fu, parent, w))) =
     (\<exists>k<length (validFiles acceptedFiles). k \<notin> set arrival)"
proof -
  have "uploading (size_errors acceptedFiles fu0) = uploading fu0" for fu0
    unfolding size_errors_def by (induction acceptedFiles arbitrary: fu0) simp_all
  then show ?thesis
    by (auto simp: onDrop_eq Let_def settleJobs_frame simp del: upt.simps)
qed

lemma onDrop_table:
  "notes_table (snd (snd (onDrop cb rnd flt gpu arrival acceptedFiles (fu, parent, w)))) = notes_table w"
  by (simp add: onDrop_eq Let_def settleJobs_frame startJobs_index del: upt.simps)

lemma onDrop_parent:
  "fst (snd (onDrop cb rnd flt gpu arrival acceptedFiles (fu, parent, w))) =
     (let valid = validFiles acceptedFiles;
          urls = map (\<lambda>k. gpu (fileName (rnd k) (valid ! k)))
                     (filter (\<lambda>k. flt k = NoFault) [0..<length valid])
      in if urls = [] \<or> (\<exists>k<length valid. k \<notin> set arrival) then parent else cb urls parent)"
  by (auto simp: onDrop_eq Let_def simp del: upt.simps)

lemma onDrop_console:
  "\<exists>order. distinct order
     \<and> set order = {k. k < length (validFiles acceptedFiles) \<and> k \<in> set arrival \<and> flt k \<noteq> NoFault}
     \<and> console (snd (snd (onDrop cb rnd flt gpu arrival acceptedFiles (fu, parent, w)))) =
         console w @ map (\<lambda>k. (''Error uploading '' @ file_name (validFiles acceptedFiles ! k) @ '':'',
                               fault_error (flt k))) order"
proof (cases "validFiles acceptedFiles = []")
  case True
  then show ?thesis by (intro exI[of _ "[]"]) (simp add: onDrop_eq Let_def)
next
  case False
  let ?valid = "validFiles acceptedFiles"
  let ?N = "length ?valid"
  let ?fu1 = "size_errors acceptedFiles
                  (fu\<lparr>upload_error := None, uploading := True, uploadProgress := Map.empty\<rparr>)"
  let ?jobs = "fst (startJobs rnd 0 ?valid w)"
  let ?w1 = "snd (startJobs rnd 0 ?valid w)"
  let ?settled = "settleJobs flt gpu ?jobs arrival ([0..<?N], replicate ?N None, ?fu1, ?w1)"
  obtain order where o: "distinct order"
    "set order = {k \<in> set [0..<?N]. k \<in> set arrival \<and> flt k \<noteq> NoFault}"
    "console (snd (snd (snd ?settled))) =
       console ?w1 @ map (\<lambda>k. (''Error uploading '' @ file_name (job_file (?jobs ! k)) @ '':'',
                               fault_error (flt k))) order"
    using settleJobs_console[of "[0..<?N]" arrival flt gpu ?jobs "replicate ?N None" ?fu1 ?w1]
    by auto
  have "map (\<lambda>k. (''Error uploading '' @ file_name (job_file (?jobs ! k)) @ '':'', fault_error (flt k))) order
      = map (\<lambda>k. (''Error uploading '' @ file_name (?valid ! k) @ '':'', fault_error (flt k))) order"
    using o(2) by (intro map_cong) (auto simp: startJobs_index simp del: upt.simps)
  moreover have "console ?w1 = console w" by (simp add: startJobs_index del: upt.simps)
  moreover have "console (snd (snd (onDrop cb rnd flt gpu arrival acceptedFiles (fu, parent, w)))) =
      console (snd (snd (snd ?settled)))"
    using False by (simp add: onDrop_eq Let_def del: upt.simps)
  moreover have "set order = {k. k < ?N \<and> k \<in> set arrival \<and> flt k \<noteq> NoFault}"
    using o(2) by auto
  ultimately show ?thesis using o(1,3) by (intro exI[of _ order]) simp
qed


section \<open>Removing one attachment\<close>

text \<open>
  The two outcomes of \<^verbatim>\<open>remove\<close> that the component's \<^verbatim>\<open>handleRemoveFile\<close>
  tells apart: after a resolved promise the parent's callback has run, after a rejected
  one it has not.
\<close>

lemma handleRemoveFile_rejected:
  "FileUpload_handleRemoveFile (Some callback) (Crashed e) url (fu, parent, w) = (fu', parent', w')
   \<Longrightarrow> objectName url \<noteq> []
   \<Longrightarrow> parent' = parent \<and> upload_error fu' = Some ''Failed to remove file. Please try again.''"
  by (auto simp: FileUpload_handleRemoveFile_def storage_remove_def answer_def Let_def)

lemma handleRemoveFile_resolved:
  "FileUpload_handleRemoveFile (Some callback) flt url (fu, parent, w) = (fu', parent', w')
   \<Longrightarrow> flt = NoFault \<or> flt = Refused e
   \<Longrightarrow> parent' = callback url parent \<and> fu' = fu"
  by (cases "objectName url = []")
     (auto simp: FileUpload_handleRemoveFile_def storage_remove_def answer_def Let_def)

lemma NotePage_handleRemoveFile_absent:
  "draft (NotePage_handleRemoveFile url st) = Some m \<Longrightarrow> url \<notin> set (attachments m)"
  by (auto simp: NotePage_handleRemoveFile_def split: option.splits)

section \<open>The sample data evaluated\<close>

lemma valid_sample: "validFiles [exam_pdf, lecture_mp4, slides_pdf] = [exam_pdf, slides_pdf]"
  by (simp add: validFiles_def MAX_FILE_SIZE_def exam_pdf_def lecture_mp4_def slides_pdf_def)

lemma names_sample:
  "fileName r exam_pdf = r @ ''.pdf''" "fileName r slides_pdf = r @ ''.pdf''"
  by (simp_all add: fileName_def fileExt_def js_pop_def exam_pdf_def slides_pdf_def)

lemma sample_names:
  "file_name exam_pdf = ''exam.pdf''" "file_name slides_pdf = ''slides.v2.pdf''"
  by (simp_all add: exam_pdf_def slides_pdf_def)

lemma sample_url_name: "objectName (sample_getPublicUrl ''0.5.pdf'') = ''0.5.pdf''"
  by (simp add: sample_getPublicUrl_def objectName_publicUrl encodeURI_def encodeChar_def
      uriUnescaped_def)

lemma sample_note_fields:
  "title sample_note = '' Midterm Review''" "category sample_note = ''Biology''"
  "content sample_note = ''# Cells''" "tags sample_note = [''exam'']"
  "attachments sample_note = [sample_getPublicUrl ''0.5.pdf'']"
  by (simp_all add: sample_note_def)

lemma sample_trims:
  "trim '' Midterm Review'' = ''Midterm Review''" "trim ''Biology'' = ''Biology''"
  by (simp_all add: trim_def isWhiteSpace_def)

lemma saved_world:
  "handleSave ''new'' (Some alice) NoFault ''n1'' (page_with (Some sample_note), world0) =
     (page_with (Some sample_note),
      world0\<lparr>notes_table :=
                [''n1'' \<mapsto> \<lparr>note_id = ''n1'', title = ''Midterm Review'', content = ''# Cells'',
                              category = ''Biology'', tags = [''exam''],
                              attachments = [sample_getPublicUrl ''0.5.pdf''],
                              user_id = Some ''u-alice''\<rparr>],
              requests := [NotesInsert \<lparr>nd_title = ''Midterm Review'', nd_content = ''# Cells'',
                              nd_category = ''Biology'', nd_tags = [''exam''],
                              nd_attachments = [sample_getPublicUrl ''0.5.pdf''],
                              nd_user_id = ''u-alice''\<rparr>],
              navigations := [''/'']\<rparr>)"
  by (simp add: handleSave_def notes_insert_def answer_def received_def navigate_def row_of_def
      Let_def page_with_def world0_def sample_note_fields sample_trims alice_def)

lemma lecture_notes_name:
  "file_name lecture_notes = ''lecture notes''" "fileName r lecture_notes = r @ ''.lecture notes''"
  by (simp_all add: lecture_notes_def fileName_def fileExt_def js_pop_def)


lemma sample_index: "[0..<2] = [0, Suc 0]" "[0..<1] = [0]"
  by (simp_all add: upt_rec numeral_2_eq_2)

lemma valid_samples:
  "validFiles [lecture_mp4] = []" "validFiles [slides_pdf] = [slides_pdf]"
  "validFiles [exam_pdf] = [exam_pdf]" "validFiles [todo_txt] = [todo_txt]"
  "validFiles [lecture_notes] = [lecture_notes]"
  by (simp_all add: validFiles_def MAX_FILE_SIZE_def lecture_mp4_def slides_pdf_def exam_pdf_def
      todo_txt_def lecture_notes_def)

lemma lecture_notes_url:
  "objectName (sample_getPublicUrl ''0.5.lecture notes'') = ''0.5.lecture%20notes''"
  by (simp add: sample_getPublicUrl_def objectName_publicUrl encodeURI_def encodeChar_def
      uriUnescaped_def percent_def hexDigit_def)

text \<open>
  Two refused uploads whose replies come in against the order of the batch: the line for
  the second file is written before the line for the first.
\<close>

lemma replies_out_of_order:
  "console (snd (snd (onDrop handleUploadComplete sample_rnd (\<lambda>k. Refused ''denied'')
       sample_getPublicUrl [Suc 0, 0] [exam_pdf, slides_pdf]
       (upload0, page_with None, world0)))) =
     [(''Error uploading slides.v2.pdf:'', ''denied''), (''Error uploading exam.pdf:'', ''denied'')]"
proof -
  have v: "validFiles [exam_pdf, slides_pdf] = [exam_pdf, slides_pdf]"
    by (simp add: validFiles_def MAX_FILE_SIZE_def exam_pdf_def slides_pdf_def)
  show ?thesis
    by (simp add: onDrop_def v Let_def storage_upload_request_def received_def jobSettled_eq
        console_error_def fault_error_def world0_def sample_index sample_names)
qed

section \<open>The claims\<close>

text \<open>
  Claim C1. For a URL of the draft's attachment list, removing the attachment changes
  the list only after the storage removal has succeeded: after a success the URL is
  gone from the list, after a failure the list is as before.

  The handler does not do this for a failure that the storage client reports in its
  reply: \<^verbatim>\<open>await ... .remove([fileName])\<close> resolves, the reply is dropped, and
  \<^verbatim>\<open>onRemoveFile(url)\<close> runs. Below, the removal of the one attachment of the sample
  note is refused, and the handler returns with the URL taken off the draft's list and
  no message set. (\<^verbatim>\<open>handleDelete\<close> and the upload jobs do look at the \<^verbatim>\<open>error\<close> of
  their replies.)
\<close>

theorem C1_refused_removal_drops_url:
  "sample_getPublicUrl ''0.5.pdf'' \<in> set (attachments sample_note)
   \<and> FileUpload_handleRemoveFile (Some NotePage_handleRemoveFile) (Refused ''denied'')
        (sample_getPublicUrl ''0.5.pdf'') (upload0, page_with (Some sample_note), world0)
     = (upload0,
        page_with (Some (sample_note\<lparr>attachments := []\<rparr>)),
        world0\<lparr>requests := [StorageRemove [''0.5.pdf'']]\<rparr>)"
  by (simp add: FileUpload_handleRemoveFile_def NotePage_handleRemoveFile_def storage_remove_def
      answer_def received_def Let_def sample_url_name page_with_def sample_note_def world0_def)



text \<open>
  Claim C3 as first stated, with the loaded fields equal to those of the saved draft,
  fails for a title with white space at an end. The sample note has the title
  \<open>'' Midterm Review''\<close>; its trimmed title and category are not empty; it is saved
  as a new note under the key \<open>n1\<close> and loaded again: the title loaded is
  \<open>''Midterm Review''\<close>, which is not the title of the draft.
\<close>

theorem C3_title_not_preserved:
  "trim (title sample_note) \<noteq> [] \<and> trim (category sample_note) \<noteq> []
   \<and> draft (page_with (Some sample_note)) = Some sample_note
   \<and> map_option title
        (draft (fst (fetchNote ''n1'' NoFault
           (page_with None,
            snd (handleSave ''new'' (Some alice) NoFault ''n1''
                   (page_with (Some sample_note), world0))))))
       = Some ''Midterm Review''
   \<and> map_option title
        (draft (fst (fetchNote ''n1'' NoFault
           (page_with None,
            snd (handleSave ''new'' (Some alice) NoFault ''n1''
                   (page_with (Some sample_note), world0))))))
       \<noteq> Some (title sample_note)"
  unfolding saved_world
  by (simp add: fetchNote_def notes_select_single_def answer_def received_def
      Let_def world0_def sample_note_fields sample_trims page_with_def)

text \<open>
  Claim C3, as amended. After a save that succeeds (an insert under a key not yet in
  the table, or an update of a row that is there), loading the note under its key gives
  a draft whose title and category are those of the saved draft with the white space at
  their ends removed, and whose content, tags and attachments are those of the saved
  draft. This needs no condition on the trimmed title and category.
\<close>

theorem C3_save_then_load:
  assumes "draft st = Some n" and "session = Some s"
    and "route_id = ''new'' \<longrightarrow> notes_table w newid = None"
    and "route_id \<noteq> ''new'' \<longrightarrow> notes_table w route_id \<noteq> None"
    and "handleSave route_id session NoFault newid (st, w) = (st1, w1)"
    and "k = (if route_id = ''new'' then newid else route_id)"
    and "fetchNote k NoFault (st2, w1) = (st3, w3)"
  shows "\<exists>m. draft st3 = Some m
            \<and> title m = trim (title n) \<and> category m = trim (category n)
            \<and> content m = content n \<and> tags m = tags n \<and> attachments m = attachments n"
  using assms
  by (cases "route_id = ''new''")
     (auto simp: handleSave_def fetchNote_def notes_insert_def notes_update_def
        notes_select_single_def answer_def received_def navigate_def console_error_def
        row_of_def Let_def)

theorem C3_save_then_load_witness:
  "draft (page_with (Some sample_note)) = Some sample_note
   \<and> notes_table world0 ''n1'' = None
   \<and> (\<exists>m. draft (fst (fetchNote ''n1'' NoFault
           (page_with None,
            snd (handleSave ''new'' (Some alice) NoFault ''n1''
                   (page_with (Some sample_note), world0))))) = Some m
          \<and> title m = ''Midterm Review'' \<and> category m = ''Biology''
          \<and> content m = ''# Cells'' \<and> tags m = [''exam'']
          \<and> attachments m = [sample_getPublicUrl ''0.5.pdf''])"
proof -
  let ?s = "handleSave ''new'' (Some alice) NoFault ''n1'' (page_with (Some sample_note), world0)"
  let ?l = "fetchNote ''n1'' NoFault (page_with None, snd ?s)"
  have d: "draft (page_with (Some sample_note)) = Some sample_note" by (simp add: page_with_def)
  have f: "''new'' = ''new'' \<longrightarrow> notes_table world0 ''n1'' = None" by (simp add: world0_def)
  have g: "''new'' \<noteq> ''new'' \<longrightarrow> notes_table world0 ''new'' \<noteq> None" by simp
  have s: "?s = (fst ?s, snd ?s)" by simp
  have k: "''n1'' = (if ''new'' = ''new'' then ''n1'' else ''new'')" by simp
  have l: "?l = (fst ?l, snd ?l)" by simp
  show ?thesis
    using C3_save_then_load[OF d refl f g s k l]
    by (simp add: d world0_def sample_note_fields sample_trims)
qed

text \<open>
  Claim C4. Let \<open>N\<close> files pass the size filter of \<^verbatim>\<open>onDrop\<close> and let \<open>M\<close> of the
  \<open>N\<close> upload requests fail. All \<open>N\<close> requests are sent when the batch starts, whatever
  becomes of any of them, and the jobs that succeed are \<open>N - M\<close>. Once the reply of every
  job has come in, in whatever order, the URLs of the \<open>N - M\<close> jobs that succeeded are
  handed to \<^verbatim>\<open>onUploadComplete\<close>, in the order of the batch (unless there is none);
  each of the \<open>M\<close> failures has been reported by one \<^verbatim>\<open>console.error\<close> line naming its
  file, the lines standing in the order of the replies; and \<^verbatim>\<open>uploading\<close> is false
  again. As long as the reply of some job is missing, the callback has not run and
  \<^verbatim>\<open>uploading\<close> is still true: what follows \<^verbatim>\<open>Promise.all\<close> runs only after
  every job has settled.
\<close>

theorem C4_upload_batch:
  assumes "valid = validFiles acceptedFiles"
    and "N = length valid"
    and "failing = filter (\<lambda>k. flt k \<noteq> NoFault) [0..<N]"
    and "M = length failing"
    and "urls = map (\<lambda>k. getPublicUrl (fileName (rnd k) (valid ! k)))
                    (filter (\<lambda>k. flt k = NoFault) [0..<N])"
    and "onDrop onUploadComplete rnd flt getPublicUrl arrival acceptedFiles (fu, parent, w)
           = (fu', parent', w')"
  shows "requests w' = requests w @
           map (\<lambda>k. StorageUpload (fileName (rnd k) (valid ! k)) (valid ! k)) [0..<N]
       \<and> length urls = N - M
       \<and> ((\<forall>k<N. k \<in> set arrival) \<longrightarrow>
            parent' = (if urls = [] then parent else onUploadComplete urls parent)
            \<and> (\<exists>order. distinct order \<and> set order = set failing \<and> length order = M
                  \<and> console w' = console w @
                       map (\<lambda>k. (''Error uploading '' @ file_name (valid ! k) @ '':'',
                                  fault_error (flt k))) order)
            \<and> \<not> uploading fu')
       \<and> ((\<exists>k<N. k \<notin> set arrival) \<longrightarrow>
            parent' = parent \<and> uploading fu'
            \<and> length (console w') \<le> length (console w) + M)"
proof -
  let ?entry = "\<lambda>k. (''Error uploading '' @ file_name (valid ! k) @ '':'', fault_error (flt k))"
  have r: "fu' = fst (onDrop onUploadComplete rnd flt getPublicUrl arrival acceptedFiles (fu, parent, w))"
    "parent' = fst (snd (onDrop onUploadComplete rnd flt getPublicUrl arrival acceptedFiles (fu, parent, w)))"
    "w' = snd (snd (onDrop onUploadComplete rnd flt getPublicUrl arrival acceptedFiles (fu, parent, w)))"
    using assms(6) by simp_all
  have 1: "requests w' = requests w @
           map (\<lambda>k. StorageUpload (fileName (rnd k) (valid ! k)) (valid ! k)) [0..<N]"
    unfolding r onDrop_requests assms(1,2) ..
  have "length (filter (\<lambda>k. flt k \<noteq> NoFault) [0..<N])
          + length (filter (\<lambda>k. flt k = NoFault) [0..<N]) = N"
    using sum_length_filter_compl[of "\<lambda>k. flt k \<noteq> NoFault" "[0..<N]"] by simp
  then have 2: "length urls = N - M"
    using assms(3,4,5) by simp
  have p: "parent' = (if urls = [] \<or> (\<exists>k<N. k \<notin> set arrival) then parent
                      else onUploadComplete urls parent)"
    unfolding r onDrop_parent assms(1,2,5) by (simp add: Let_def del: upt.simps)
  have u: "uploading fu' = (\<exists>k<N. k \<notin> set arrival)"
    unfolding r onDrop_uploading assms(1,2) ..
  obtain order where o: "distinct order"
    "set order = {k. k < N \<and> k \<in> set arrival \<and> flt k \<noteq> NoFault}"
    "console w' = console w @ map ?entry order"
    using onDrop_console[of acceptedFiles arrival flt onUploadComplete rnd getPublicUrl fu parent w]
    unfolding r assms(1,2) by blast
  have df: "distinct failing" unfolding assms(3) by simp
  have sub: "set order \<subseteq> set failing" using o(2) unfolding assms(3) by auto
  have "card (set order) \<le> card (set failing)" using sub by (intro card_mono) simp_all
  then have le: "length order \<le> M"
    using o(1) df by (simp add: distinct_card assms(4))
  have 3: "\<exists>order. distinct order \<and> set order = set failing \<and> length order = M
                  \<and> console w' = console w @ map ?entry order"
    if all: "\<forall>k<N. k \<in> set arrival"
  proof -
    have s: "set order = set failing" using o(2) all unfolding assms(3) by auto
    then have "length order = M"
      using o(1) df by (metis distinct_card assms(4))
    with o s show ?thesis by blast
  qed
  have 4: "length (console w') \<le> length (console w) + M"
    using o(3) le by simp
  from 1 2 p u 3 4 show ?thesis by auto
qed

theorem C4_upload_batch_witness:
  "validFiles [exam_pdf, lecture_mp4, slides_pdf] = [exam_pdf, slides_pdf]
   \<and> length [exam_pdf, slides_pdf] = 2
   \<and> filter (\<lambda>k. sample_flt k \<noteq> NoFault) [0..<2] = [1]
   \<and> length [1::nat] = 1
   \<and> map (\<lambda>k. sample_getPublicUrl (fileName (sample_rnd k) ([exam_pdf, slides_pdf] ! k)))
         (filter (\<lambda>k. sample_flt k = NoFault) [0..<2])
       = [sample_getPublicUrl ''0.5.pdf'']
   \<and> requests (snd (snd (onDrop (\<lambda>urls log. log @ [urls]) sample_rnd sample_flt sample_getPublicUrl
               [1, 0] [exam_pdf, lecture_mp4, slides_pdf] (upload0, [], world0))))
       = [StorageUpload ''0.5.pdf'' exam_pdf, StorageUpload ''0.25.pdf'' slides_pdf]
   \<and> length [sample_getPublicUrl ''0.5.pdf''] = 2 - 1
   \<and> fst (snd (onDrop (\<lambda>urls log. log @ [urls]) sample_rnd sample_flt sample_getPublicUrl
               [1, 0] [exam_pdf, lecture_mp4, slides_pdf] (upload0, [], world0)))
       = [[sample_getPublicUrl ''0.5.pdf'']]
   \<and> (\<exists>order. distinct order \<and> set order = set [1] \<and> length order = 1
         \<and> console (snd (snd (onDrop (\<lambda>urls log. log @ [urls]) sample_rnd sample_flt sample_getPublicUrl
               [1, 0] [exam_pdf, lecture_mp4, slides_pdf] (upload0, [], world0))))
           = map (\<lambda>k. (''Error uploading '' @ file_name ([exam_pdf, slides_pdf] ! k) @ '':'',
                        fault_error (sample_flt k))) order)
   \<and> \<not> uploading (fst (onDrop (\<lambda>urls log. log @ [urls]) sample_rnd sample_flt sample_getPublicUrl
               [1, 0] [exam_pdf, lecture_mp4, slides_pdf] (upload0, [], world0)))
   \<and> (\<exists>k<2. k \<notin> set [0::nat])
   \<and> fst (snd (onDrop (\<lambda>urls log. log @ [urls]) sample_rnd sample_flt sample_getPublicUrl
               [0] [exam_pdf, lecture_mp4, slides_pdf] (upload0, [], world0))) = []
   \<and> uploading (fst (onDrop (\<lambda>urls log. log @ [urls]) sample_rnd sample_flt sample_getPublicUrl
               [0] [exam_pdf, lecture_mp4, slides_pdf] (upload0, [], world0)))"
proof -
  let ?r = "\<lambda>arrival. onDrop (\<lambda>urls log. log @ [urls]) sample_rnd sample_flt sample_getPublicUrl
               arrival [exam_pdf, lecture_mp4, slides_pdf] (upload0, [], world0)"
  have 1: "[exam_pdf, slides_pdf] = validFiles [exam_pdf, lecture_mp4, slides_pdf]"
    by (simp add: valid_sample)
  have 2: "2 = length [exam_pdf, slides_pdf]" by simp
  have 3: "[1] = filter (\<lambda>k. sample_flt k \<noteq> NoFault) [0..<2]"
    by (simp add: sample_index sample_flt_def)
  have 4: "1 = length [1::nat]" by simp
  have 5: "[sample_getPublicUrl ''0.5.pdf''] =
      map (\<lambda>k. sample_getPublicUrl (fileName (sample_rnd k) ([exam_pdf, slides_pdf] ! k)))
         (filter (\<lambda>k. sample_flt k = NoFault) [0..<2])"
    by (simp add: sample_index sample_flt_def sample_rnd_def names_sample)
  have 6: "?r arrival = (fst (?r arrival), fst (snd (?r arrival)), snd (snd (?r arrival)))"
    for arrival by simp
  note T1 = C4_upload_batch[OF 1 2 3 4 5 6[of "[1, 0]"]]
  note T0 = C4_upload_batch[OF 1 2 3 4 5 6[of "[0]"]]
  have a: "\<forall>k<2. k \<in> set [1, 0::nat]" by (auto simp: less_Suc_eq numeral_2_eq_2)
  have c6: "\<exists>k<2. k \<notin> set [0::nat]" by (intro exI[of _ 1]) simp
  note A = mp[OF T1[THEN conjunct2, THEN conjunct2, THEN conjunct1] a]
  note B = mp[OF T0[THEN conjunct2, THEN conjunct2, THEN conjunct2] c6]
  have w: "requests world0 = []" "console world0 = []" by (simp_all add: world0_def)
  have m: "map (\<lambda>k. StorageUpload (fileName (sample_rnd k) ([exam_pdf, slides_pdf] ! k))
                 ([exam_pdf, slides_pdf] ! k)) [0..<2]
           = [StorageUpload ''0.5.pdf'' exam_pdf, StorageUpload ''0.25.pdf'' slides_pdf]"
    by (simp add: sample_index sample_rnd_def names_sample)
  have h1: "validFiles [exam_pdf, lecture_mp4, slides_pdf] = [exam_pdf, slides_pdf]"
    by (rule valid_sample)
  have h2: "length [exam_pdf, slides_pdf] = 2"
    by simp
  have h3: "filter (\<lambda>k. sample_flt k \<noteq> NoFault) [0..<2] = [1]"
    by (simp add: sample_index sample_flt_def)
  have h4: "length [1::nat] = 1"
    by simp
  have h5: "map (\<lambda>k. sample_getPublicUrl (fileName (sample_rnd k) ([exam_pdf, slides_pdf] ! k)))
         (filter (\<lambda>k. sample_flt k = NoFault) [0..<2])
       = [sample_getPublicUrl ''0.5.pdf'']"
    by (simp add: sample_index sample_flt_def sample_rnd_def names_sample)
  have c1: "requests (snd (snd (onDrop (\<lambda>urls log. log @ [urls]) sample_rnd sample_flt sample_getPublicUrl
               [1, 0] [exam_pdf, lecture_mp4, slides_pdf] (upload0, [], world0))))
       = [StorageUpload ''0.5.pdf'' exam_pdf, StorageUpload ''0.25.pdf'' slides_pdf]"
    using T1[THEN conjunct1] by (simp add: w m del: upt.simps)
  have c2: "length [sample_getPublicUrl ''0.5.pdf''] = 2 - 1"
    by simp
  have c3: "fst (snd (onDrop (\<lambda>urls log. log @ [urls]) sample_rnd sample_flt sample_getPublicUrl
               [1, 0] [exam_pdf, lecture_mp4, slides_pdf] (upload0, [], world0)))
       = [[sample_getPublicUrl ''0.5.pdf'']]"
    using A[THEN conjunct1] by simp
  have c4: "\<exists>order. distinct order \<and> set order = set [1] \<and> length order = 1
         \<and> console (snd (snd (onDrop (\<lambda>urls log. log @ [urls]) sample_rnd sample_flt sample_getPublicUrl
               [1, 0] [exam_pdf, lecture_mp4, slides_pdf] (upload0, [], world0))))
           = map (\<lambda>k. (''Error uploading '' @ file_name ([exam_pdf, slides_pdf] ! k) @ '':'',
                        fault_error (sample_flt k))) order"
    using A[THEN conjunct2, THEN conjunct1] by (simp only: w append_Nil)
  have c5: "\<not> uploading (fst (onDrop (\<lambda>urls log. log @ [urls]) sample_rnd sample_flt sample_getPublicUrl
               [1, 0] [exam_pdf, lecture_mp4, slides_pdf] (upload0, [], world0)))"
    using A[THEN conjunct2, THEN conjunct2] .
  have c7: "fst (snd (onDrop (\<lambda>urls log. log @ [urls]) sample_rnd sample_flt sample_getPublicUrl
               [0] [exam_pdf, lecture_mp4, slides_pdf] (upload0, [], world0))) = []"
    using B[THEN conjunct1] .
  have c8: "uploading (fst (onDrop (\<lambda>urls log. log @ [urls]) sample_rnd sample_flt sample_getPublicUrl
               [0] [exam_pdf, lecture_mp4, slides_pdf] (upload0, [], world0)))"
    using B[THEN conjunct2, THEN conjunct1] .
  show ?thesis
    by (intro conjI h1 h2 h3 h4 h5 c1 c2 c3 c4 c5 c6 c7 c8)
qed

text \<open>
  Claim C5. With a draft and a session, \<^verbatim>\<open>handleSave\<close> sends exactly one request. Its
  payload has the draft's title and category trimmed and the draft's content, tags and
  attachments as they are, with the user of the session; it is an insert when the route
  parameter is \<^verbatim>\<open>'new'\<close> and an update of the row with that key otherwise.
\<close>

theorem C5_save_payload:
  assumes "draft st = Some n" and "session = Some s"
    and "handleSave route_id session flt newid (st, w) = (st', w')"
    and "payload = \<lparr>nd_title = trim (title n), nd_content = content n,
                     nd_category = trim (category n), nd_tags = tags n,
                     nd_attachments = attachments n, nd_user_id = session_user_id s\<rparr>"
  shows "requests w' = requests w @
           [if route_id = ''new'' then NotesInsert payload else NotesUpdate payload route_id]"
  using assms
  by (cases flt; cases "notes_table w newid"; cases "notes_table w route_id")
     (auto simp: handleSave_def notes_insert_def notes_update_def answer_def received_def
        navigate_def console_error_def Let_def)

theorem C5_save_payload_witness:
  "draft (page_with (Some sample_note)) = Some sample_note
   \<and> requests (snd (handleSave ''new'' (Some alice) NoFault ''n1'' (page_with (Some sample_note), world0)))
      = [NotesInsert \<lparr>nd_title = ''Midterm Review'', nd_content = ''# Cells'',
                      nd_category = ''Biology'', nd_tags = [''exam''],
                      nd_attachments = [sample_getPublicUrl ''0.5.pdf''],
                      nd_user_id = ''u-alice''\<rparr>]
   \<and> requests (snd (handleSave ''n7'' (Some alice) NoFault ''n1'' (page_with (Some sample_note), world0)))
      = [NotesUpdate \<lparr>nd_title = ''Midterm Review'', nd_content = ''# Cells'',
                      nd_category = ''Biology'', nd_tags = [''exam''],
                      nd_attachments = [sample_getPublicUrl ''0.5.pdf''],
                      nd_user_id = ''u-alice''\<rparr> ''n7'']"
proof -
  have d: "draft (page_with (Some sample_note)) = Some sample_note" by (simp add: page_with_def)
  have r: "handleSave rid (Some alice) NoFault ''n1'' (page_with (Some sample_note), world0)
       = (fst (handleSave rid (Some alice) NoFault ''n1'' (page_with (Some sample_note), world0)),
          snd (handleSave rid (Some alice) NoFault ''n1'' (page_with (Some sample_note), world0)))" for rid
    by simp
  show ?thesis
    using C5_save_payload[OF d refl r[of "''new''"] refl] C5_save_payload[OF d refl r[of "''n7''"] refl]
    by (simp add: d sample_note_fields sample_trims alice_def world0_def)
qed

text \<open>
  Claim C6. When the request of \<^verbatim>\<open>handleSave\<close> fails, the draft is what it was, the
  message \<^verbatim>\<open>Failed to save note. Please try again.\<close> is set, \<^verbatim>\<open>saving\<close> is false
  again, the one request is all that was sent, and neither the table nor the location
  has changed.
\<close>

theorem C6_save_failure:
  assumes "draft st = Some n" and "session = Some s" and "flt \<noteq> NoFault"
    and "handleSave route_id session flt newid (st, w) = (st', w')"
  shows "draft st' = draft st
       \<and> error st' = Some ''Failed to save note. Please try again.''
       \<and> \<not> saving st'
       \<and> (\<exists>rq. requests w' = requests w @ [rq])
       \<and> notes_table w' = notes_table w
       \<and> navigations w' = navigations w"
  using assms
  by (cases flt; cases "route_id = ''new''")
     (auto simp: handleSave_def notes_insert_def notes_update_def answer_def received_def
        navigate_def console_error_def Let_def)

theorem C6_save_failure_witness:
  "draft (page_with (Some sample_note)) = Some sample_note
   \<and> Crashed ''network'' \<noteq> NoFault
   \<and> draft (fst (handleSave ''new'' (Some alice) (Crashed ''network'') ''n1''
                    (page_with (Some sample_note), world0))) = Some sample_note
   \<and> error (fst (handleSave ''new'' (Some alice) (Crashed ''network'') ''n1''
                    (page_with (Some sample_note), world0)))
       = Some ''Failed to save note. Please try again.''
   \<and> length (requests (snd (handleSave ''new'' (Some alice) (Crashed ''network'') ''n1''
                    (page_with (Some sample_note), world0)))) = 1
   \<and> navigations (snd (handleSave ''new'' (Some alice) (Crashed ''network'') ''n1''
                    (page_with (Some sample_note), world0))) = []"
proof -
  let ?r = "handleSave ''new'' (Some alice) (Crashed ''network'') ''n1''
              (page_with (Some sample_note), world0)"
  have d: "draft (page_with (Some sample_note)) = Some sample_note" by (simp add: page_with_def)
  have f: "Crashed ''network'' \<noteq> NoFault" by simp
  have r: "?r = (fst ?r, snd ?r)" by simp
  have w: "requests world0 = []" "navigations world0 = []" by (simp_all add: world0_def)
  show ?thesis
    using C6_save_failure[OF d refl f r] by (auto simp: d w)
qed




text \<open>
  Claim C8. The storage name generated for an uploaded file keeps the file's extension,
  and the object name derived from the file's public URL, as \<^verbatim>\<open>handleRemoveFile\<close> and
  \<^verbatim>\<open>handleDelete\<close> derive it, is the storage name.

  The first half holds (\<open>fileName_keeps_extension\<close>), and so does the second where
  \<^verbatim>\<open>encodeURI\<close> leaves every character of the storage name alone
  (\<open>objectName_roundtrip\<close>). The code does not undo the encoding, and for other names
  the second half fails. The sample video is called \<open>''lecture notes''\<close>; with the random
  number 0.5 it is uploaded under the name \<open>''0.5.lecture notes''\<close>, and the name derived
  from its public URL, the one that the removal request carries, is
  \<open>''0.5.lecture%20notes''\<close>.
\<close>

theorem C8_escaped_name_not_recovered:
  "fileName ''0.5'' lecture_notes = ''0.5.lecture notes''
   \<and> requests (snd (snd (onDrop handleUploadComplete (\<lambda>k. ''0.5'') (\<lambda>k. NoFault)
         sample_getPublicUrl [0] [lecture_notes] (upload0, page_with (Some sample_note), world0))))
       = [StorageUpload ''0.5.lecture notes'' lecture_notes]
   \<and> objectName (sample_getPublicUrl (fileName ''0.5'' lecture_notes)) = ''0.5.lecture%20notes''
   \<and> objectName (sample_getPublicUrl (fileName ''0.5'' lecture_notes)) \<noteq> fileName ''0.5'' lecture_notes
   \<and> requests (snd (snd (FileUpload_handleRemoveFile (Some NotePage_handleRemoveFile) NoFault
         (sample_getPublicUrl (fileName ''0.5'' lecture_notes))
         (upload0, page_with (Some sample_note), world0))))
       = [StorageRemove [''0.5.lecture%20notes'']]"
  by (simp add: lecture_notes_name lecture_notes_url onDrop_requests valid_samples sample_index
      FileUpload_handleRemoveFile_def storage_remove_def answer_def received_def Let_def world0_def)

text \<open>
  Claim C9. When no job of a batch succeeds (no file passed the size filter, or every
  upload failed), the parent's state after \<^verbatim>\<open>onDrop\<close> is its state before, whatever
  the callback \<^verbatim>\<open>onUploadComplete\<close> is and in whatever order the replies come in: the
  callback has not run, and with the note page as parent the draft's attachment list is
  unchanged. When some job succeeds and every reply has come in, the callback is run on
  a list of URLs that is not empty.
\<close>

theorem C9_no_success_no_callback:
  assumes "onDrop onUploadComplete rnd flt getPublicUrl arrival acceptedFiles (fu, parent, w)
             = (fu', parent', w')"
  shows "((\<forall>k<length (validFiles acceptedFiles). flt k \<noteq> NoFault) \<longrightarrow> parent' = parent)
       \<and> ((\<exists>k<length (validFiles acceptedFiles). flt k = NoFault)
            \<and> (\<forall>k<length (validFiles acceptedFiles). k \<in> set arrival) \<longrightarrow>
            (\<exists>urls. urls \<noteq> [] \<and> parent' = onUploadComplete urls parent))"
proof -
  let ?N = "length (validFiles acceptedFiles)"
  let ?ok = "filter (\<lambda>k. flt k = NoFault) [0..<?N]"
  let ?urls = "map (\<lambda>k. getPublicUrl (fileName (rnd k) (validFiles acceptedFiles ! k))) ?ok"
  have p: "parent' = (if ?urls = [] \<or> (\<exists>k<?N. k \<notin> set arrival) then parent
           else onUploadComplete ?urls parent)"
    using onDrop_parent[of onUploadComplete rnd flt getPublicUrl arrival acceptedFiles fu parent w] assms
    by (simp add: Let_def del: upt.simps)
  have e: "(?urls = []) = (\<forall>k<?N. flt k \<noteq> NoFault)"
    by (auto simp: filter_empty_conv)
  have 1: "parent' = parent" if "\<forall>k<?N. flt k \<noteq> NoFault"
    using p e that by simp
  have 2: "\<exists>urls. urls \<noteq> [] \<and> parent' = onUploadComplete urls parent"
    if "\<exists>k<?N. flt k = NoFault" "\<forall>k<?N. k \<in> set arrival"
  proof -
    have "?urls \<noteq> []" using e that(1) by auto
    moreover have "parent' = onUploadComplete ?urls parent"
      using p that(2) \<open>?urls \<noteq> []\<close> by auto
    ultimately show ?thesis by blast
  qed
  from 1 2 show ?thesis by blast
qed

theorem C9_no_success_no_callback_witness:
  "fst (snd (onDrop handleUploadComplete sample_rnd sample_flt sample_getPublicUrl [] [lecture_mp4]
         (upload0, page_with (Some sample_note), world0))) = page_with (Some sample_note)
   \<and> fst (snd (onDrop handleUploadComplete sample_rnd (\<lambda>k. Crashed ''network'') sample_getPublicUrl
         [0] [slides_pdf]
         (upload0, page_with (Some sample_note), world0))) = page_with (Some sample_note)
   \<and> (\<exists>k<length (validFiles [exam_pdf]). sample_flt k = NoFault)
   \<and> (\<exists>urls. urls \<noteq> [] \<and>
         fst (snd (onDrop handleUploadComplete sample_rnd sample_flt sample_getPublicUrl [0] [exam_pdf]
           (upload0, page_with (Some sample_note), world0)))
         = handleUploadComplete urls (page_with (Some sample_note)))"
proof -
  let ?r = "\<lambda>flt arrival files. onDrop handleUploadComplete sample_rnd flt sample_getPublicUrl
         arrival files (upload0, page_with (Some sample_note), world0)"
  have r: "?r flt arrival files =
      (fst (?r flt arrival files), fst (snd (?r flt arrival files)), snd (snd (?r flt arrival files)))"
    for flt arrival files by simp
  have e: "\<exists>k<length (validFiles [exam_pdf]). sample_flt k = NoFault"
    by (simp add: valid_samples sample_flt_def)
  show ?thesis
    using C9_no_success_no_callback[OF r[of sample_flt "[]" "[lecture_mp4]"]]
      C9_no_success_no_callback[OF r[of "\<lambda>k. Crashed ''network''" "[0]" "[slides_pdf]"]]
      C9_no_success_no_callback[OF r[of sample_flt "[0]" "[exam_pdf]"]] e
    by (simp add: valid_samples)
qed

text \<open>
  Claim C10. Without a draft or without a session \<^verbatim>\<open>handleSave\<close> changes nothing:
  the state of the page and the world, with its list of requests, are returned as they
  were.
\<close>

theorem C10_save_noop:
  assumes "draft st = None \<or> session = None"
  shows "handleSave route_id session flt newid (st, w) = (st, w)"
  using assms by (auto simp: handleSave_def split: option.splits)

theorem C10_save_noop_witness:
  "(draft (page_with None) = None \<or> Some alice = None)
   \<and> handleSave ''new'' (Some alice) NoFault ''n1'' (page_with None, world0) = (page_with None, world0)"
  using C10_save_noop[of "page_with None" "Some alice" "''new''" NoFault "''n1''" world0]
  by (simp add: page_with_def)

end
